theory Spec2Isabelle
  imports Main
begin

section \<open>Values, exceptions and connections\<close>

text \<open>
  The handler works on decoded JSON and on whatever the registered functions return.
  Both are Python values; the ones that matter to the dispatcher are modelled here
  (floating-point numbers are left out: the dispatcher never inspects a number).
\<close>

datatype pyval =
    PNone
  | PBool bool
  | PInt int
  | PStr string
  | PList "pyval list"
  | PDict "(string \<times> pyval) list"

text \<open>Python's truth test, as used by \<^verbatim>\<open>if ret:\<close> in \<^verbatim>\<open>handle\<close>.\<close>

fun truthy :: "pyval \<Rightarrow> bool" where
  "truthy PNone = False"
| "truthy (PBool b) = b"
| "truthy (PInt i) = (i \<noteq> 0)"
| "truthy (PStr s) = (s \<noteq> [])"
| "truthy (PList xs) = (xs \<noteq> [])"
| "truthy (PDict kvs) = (kvs \<noteq> [])"

datatype exn =
    CancelledError
  | AttributeError
  | TypeError
  | ValueError
  | RuntimeError
  | TransportError
  | Exception string

text \<open>A connection object is identified by its address; its state lives in a store.\<close>

type_synonym conn = nat

datatype WSMsgType = TEXT | BINARY | ERROR | PING | PONG

text \<open>
  An inbound message: its \<^verbatim>\<open>type\<close>, and what \<^verbatim>\<open>json.loads(msg.data)\<close> gives on
  its payload (a value, or the exception it raises).
\<close>

record message =
  msg_type :: WSMsgType
  json_loads :: "exn + pyval"

text \<open>
  What \<^verbatim>\<open>async for msg in ws\<close> meets, in order: a message, an exception raised while
  waiting for the next one, or the close handshake (the transport closes the connection
  and the iteration stops). The end of the list is the end of the stream.
\<close>

datatype inbound = Message message | Raises exn | Closing

text \<open>A piece of a formatted log line: literal text, a value, or an exception.\<close>

datatype frag = Lit string | Val pyval | Exc "exn option"

text \<open>The steps a run performs, in the order of the source lines that perform them.\<close>

datatype step =
    LogInfo "frag list"
  | LogError "frag list"
  | LogWarn "frag list"
  | Call string
  | Recv WSMsgType
  | Append conn
  | OnConnect conn
  | Remove conn
  | WsClose conn
  | OnDisconnect pyval
  | SendJson conn pyval
  | WsConnect string bool
  | SetWs conn
  | ExitWith conn
  | SessionClose

section \<open>The handler registry: \<^verbatim>\<open>create_data_handler\<close>\<close>

text \<open>
  A Python function: its \<^verbatim>\<open>__name__\<close> and what calling it does. A handler is called as
  \<^verbatim>\<open>f(self, data, ws)\<close>; the mutable part of \<^verbatim>\<open>self\<close> and of the connections is the
  state \<open>'w\<close>, and the call returns a value or raises.
\<close>

datatype 'w func =
  Func (name: string) (body: "pyval \<Rightarrow> conn \<Rightarrow> 'w \<Rightarrow> (exn + pyval) \<times> 'w")

type_synonym 'w registry = "string \<rightharpoonup> 'w func"

datatype 'w name_or_func = Str string | Fun "'w func"

text \<open>
  What \<^verbatim>\<open>data_handler(name_or_func)\<close> returns: in the first case the wrapper of the
  function, in the second case the closure that waits for the function.
\<close>

datatype 'w decorated = Wrapper "'w func" | Decorator string

text \<open>
  \<^verbatim>\<open>create_data_handler(handler)(name_or_func)\<close>: the registry after the call and the
  returned object. The wrappers pass every call through; their own names are those of
  the inner functions of the source.
\<close>

fun data_handler :: "'w registry \<Rightarrow> 'w name_or_func \<Rightarrow> 'w registry \<times> 'w decorated" where
  "data_handler handler (Fun f) =
     (handler(name f \<mapsto> f), Wrapper (Func ''_data_handler'' (body f)))"
| "data_handler handler (Str n) = (handler, Decorator n)"

text \<open>The second case's closure applied to the decorated function \<open>f\<close>.\<close>

definition data_handler_2nd :: "'w registry \<Rightarrow> string \<Rightarrow> 'w func \<Rightarrow> 'w registry \<times> 'w func" where
  "data_handler_2nd handler name_or_func f =
     (handler(name_or_func \<mapsto> f), Func ''__data_handler'' (body f))"

section \<open>The dispatcher: \<^verbatim>\<open>WebSocketHandler\<close>\<close>

text \<open>
  The part of \<^verbatim>\<open>self\<close> that a run only reads: the command key, the registry, the class
  name used in log lines, and the two hooks a subclass may override.
\<close>

record 'w handler_obj =
  command_key :: string
  handlers :: "'w registry"
  class_name :: string
  on_connect :: "conn \<Rightarrow> 'w \<Rightarrow> exn option \<times> 'w"
  on_disconnect :: "pyval \<Rightarrow> 'w \<Rightarrow> exn option \<times> 'w"

text \<open>\<^verbatim>\<open>data.get(key)\<close>: only a dict has the method; a missing key gives \<^verbatim>\<open>None\<close>.\<close>

fun py_get :: "pyval \<Rightarrow> string \<Rightarrow> exn + pyval" where
  "py_get (PDict kvs) k = (case map_of kvs k of None \<Rightarrow> Inr PNone | Some v \<Rightarrow> Inr v)"
| "py_get _ k = Inl AttributeError"

text \<open>
  \<^verbatim>\<open>cmd not in self._data_handler\<close> followed by \<^verbatim>\<open>self._data_handler[cmd]\<close>: the
  key is hashed first, and a list or a dict is not hashable. The registry's keys are
  strings, so no other kind of value is among them.
\<close>

fun registry_find :: "pyval \<Rightarrow> 'w registry \<Rightarrow> exn + 'w func option" where
  "registry_find (PStr s) reg = Inr (reg s)"
| "registry_find (PList xs) reg = Inl TypeError"
| "registry_find (PDict kvs) reg = Inl TypeError"
| "registry_find _ reg = Inr None"

text \<open>\<^verbatim>\<open>handle_data(self, data, ws)\<close>: the steps taken, the result, the state.\<close>

definition unknown_command :: "pyval \<Rightarrow> string \<Rightarrow> step" where
  "unknown_command cmd cls =
     LogError [Lit ''Error: unknown command '', Val cmd, Lit '' on '', Lit cls]"

definition handle_data ::
  "('w, 'z) handler_obj_scheme \<Rightarrow> pyval \<Rightarrow> conn \<Rightarrow> 'w \<Rightarrow> step list \<times> (exn + pyval) \<times> 'w" where
  "handle_data self data ws w =
     (case py_get data (command_key self) of
        Inl e \<Rightarrow> ([], Inl e, w)
      | Inr cmd \<Rightarrow>
          (case registry_find cmd (handlers self) of
             Inl e \<Rightarrow> ([], Inl e, w)
           | Inr None \<Rightarrow> ([unknown_command cmd (class_name self)], Inr PNone, w)
           | Inr (Some f) \<Rightarrow>
               (case body f data ws w of
                  (r, w') \<Rightarrow> ([LogInfo [Lit ''handle '', Val cmd, Lit ''...''], Call (name f)], r, w'))))"

section \<open>Connections\<close>

text \<open>
  The connection object belongs to the transport library. The handler relies on four
  things: the \<^verbatim>\<open>closed\<close> flag, \<^verbatim>\<open>exception()\<close>, \<^verbatim>\<open>send_json\<close>, which fails when the
  connection is closed or the write fails, and \<^verbatim>\<open>close()\<close>, which may be repeated.
\<close>

record websocket =
  closed :: bool
  exception :: "exn option"
  send_raises :: "exn option"
  outbox :: "pyval list"

record 'u world =
  sockets :: "conn \<Rightarrow> websocket"
  user :: 'u

definition send_json ::
  "conn \<Rightarrow> pyval \<Rightarrow> ('u, 'z) world_scheme \<Rightarrow> exn option \<times> ('u, 'z) world_scheme" where
  "send_json c msg w =
     (if closed (sockets w c) then (Some TransportError, w)
      else
        (case send_raises (sockets w c) of
           Some e \<Rightarrow> (Some e, w)
         | None \<Rightarrow>
             (None, w\<lparr>sockets := (sockets w)(c := (sockets w c)\<lparr>outbox := outbox (sockets w c) @ [msg]\<rparr>)\<rparr>)))"

definition ws_close :: "conn \<Rightarrow> ('u, 'z) world_scheme \<Rightarrow> ('u, 'z) world_scheme" where
  "ws_close c w = w\<lparr>sockets := (sockets w)(c := (sockets w c)\<lparr>closed := True\<rparr>)\<rparr>"

section \<open>The server: \<^verbatim>\<open>WebSocketHandlerServer\<close>\<close>

record 'u server = "'u world" +
  websockets :: "conn list"



text \<open>
  A step of \<^verbatim>\<open>handle\<close> is recorded together with \<^verbatim>\<open>self.websockets\<close> as the step
  finds it.
\<close>

type_synonym strace = "(step \<times> conn list) list"

definition stamp :: "'u server \<Rightarrow> step list \<Rightarrow> strace" where
  "stamp w tr = map (\<lambda>s. (s, websockets w)) tr"

text \<open>The \<^verbatim>\<open>async for msg in ws\<close> loop of \<^verbatim>\<open>handle\<close>, with \<^verbatim>\<open>ws_data\<close> carried along.\<close>

fun handle_loop ::
  "'u server handler_obj \<Rightarrow> conn \<Rightarrow> inbound list \<Rightarrow> pyval \<Rightarrow> 'u server
     \<Rightarrow> strace \<times> pyval \<times> exn option \<times> 'u server" where
  "handle_loop self ws [] ws_data w = ([], ws_data, None, w)"
| "handle_loop self ws (Closing # rest) ws_data w = ([], ws_data, None, ws_close ws w)"
| "handle_loop self ws (Raises e # rest) ws_data w = ([], ws_data, Some e, w)"
| "handle_loop self ws (Message msg # rest) ws_data w =
     (if msg_type msg = ERROR then
        (case handle_loop self ws rest ws_data w of
           (tr, r) \<Rightarrow>
             (stamp w [Recv (msg_type msg),
                       LogError [Lit ''WS connection closed with exception '',
                                 Exc (exception (sockets w ws))]] @ tr, r))
      else if msg_type msg = TEXT then
        (case json_loads msg of
           Inl e \<Rightarrow> (stamp w [Recv (msg_type msg)], ws_data, Some e, w)
         | Inr data \<Rightarrow>
             (case handle_data self data ws w of
                (tr1, Inl e, w1) \<Rightarrow> (stamp w (Recv (msg_type msg) # tr1), ws_data, Some e, w1)
              | (tr1, Inr ret, w1) \<Rightarrow>
                  (case handle_loop self ws rest (if truthy ret then ret else ws_data) w1 of
                     (tr, r) \<Rightarrow> (stamp w (Recv (msg_type msg) # tr1) @ tr, r))))
      else
        (case handle_loop self ws rest ws_data w of
           (tr, r) \<Rightarrow> (stamp w [Recv (msg_type msg)] @ tr, r)))"

text \<open>The \<^verbatim>\<open>try\<close> block of \<^verbatim>\<open>handle\<close>.\<close>

definition handle_try ::
  "'u server handler_obj \<Rightarrow> conn \<Rightarrow> inbound list \<Rightarrow> 'u server
     \<Rightarrow> strace \<times> pyval \<times> exn option \<times> 'u server" where
  "handle_try self ws stream w =
     (let w1 = w\<lparr>websockets := websockets w @ [ws]\<rparr> in
      case on_connect self ws w1 of
        (Some e, w2) \<Rightarrow> ([(Append ws, websockets w), (OnConnect ws, websockets w1)], PNone, Some e, w2)
      | (None, w2) \<Rightarrow>
          (case handle_loop self ws stream PNone w2 of
             (tr, r) \<Rightarrow> ((Append ws, websockets w) # (OnConnect ws, websockets w1) # tr, r)))"

text \<open>
  The \<^verbatim>\<open>finally\<close> block of \<^verbatim>\<open>handle\<close>. \<^verbatim>\<open>list.remove\<close> takes out the first occurrence
  and raises \<^verbatim>\<open>ValueError\<close> when there is none.
\<close>

definition handle_finally ::
  "'u server handler_obj \<Rightarrow> conn \<Rightarrow> pyval \<Rightarrow> 'u server \<Rightarrow> strace \<times> exn option \<times> 'u server" where
  "handle_finally self ws ws_data w =
     (if ws \<notin> set (websockets w) then ([(Remove ws, websockets w)], Some ValueError, w)
      else
        (let w1 = w\<lparr>websockets := remove1 ws (websockets w)\<rparr>;
             w2 = (if \<not> closed (sockets w1 ws) then ws_close ws w1 else w1)
         in case on_disconnect self ws_data w2 of
              (e, w3) \<Rightarrow>
                ((Remove ws, websockets w)
                   # stamp w1 (if \<not> closed (sockets w1 ws) then [WsClose ws] else [])
                   @ stamp w2 [OnDisconnect ws_data], e, w3)))"

text \<open>
  \<^verbatim>\<open>handle(self, ws)\<close>. An exception raised by the \<^verbatim>\<open>finally\<close> block replaces the one the
  \<^verbatim>\<open>try\<close> block left with; otherwise that one is raised again.
\<close>

definition handle ::
  "'u server handler_obj \<Rightarrow> conn \<Rightarrow> inbound list \<Rightarrow> 'u server
     \<Rightarrow> strace \<times> exn option \<times> 'u server" where
  "handle self ws stream w =
     (case handle_try self ws stream w of
        (tr1, ws_data, e1, w1) \<Rightarrow>
          (case handle_finally self ws ws_data w1 of
             (tr2, e2, w2) \<Rightarrow> (tr1 @ tr2, (case e2 of Some e \<Rightarrow> Some e | None \<Rightarrow> e1), w2)))"

section \<open>The client: \<^verbatim>\<open>WebSocketHandlerClient\<close>\<close>

record ClientSession =
  session_closed :: bool

record 'u client = "'u world" +
  self_ws :: "conn option"
  url :: string
  ssl :: bool
  session :: "ClientSession option"

text \<open>
  \<^verbatim>\<open>__init__(self, url, data_handler, logger, ssl)\<close>: the attributes a run changes or
  reads. The session is created here.
\<close>

definition client_init :: "string \<Rightarrow> bool \<Rightarrow> (conn \<Rightarrow> websocket) \<Rightarrow> 'u \<Rightarrow> 'u client" where
  "client_init u s socks usr =
     \<lparr>sockets = socks, user = usr, self_ws = None, url = u, ssl = s,
      session = Some \<lparr>session_closed = False\<rparr>\<rparr>"

text \<open>
  \<^verbatim>\<open>self.session.ws_connect(self.url, ssl=self.ssl)\<close>, entered by \<^verbatim>\<open>async with\<close>. The
  network decides whether the connection is established; a closed session refuses to
  connect.
\<close>

type_synonym network = "string \<Rightarrow> bool \<Rightarrow> exn + conn"

definition ws_connect :: "network \<Rightarrow> 'u client \<Rightarrow> step list \<times> (exn + conn)" where
  "ws_connect net w =
     (case session w of
        None \<Rightarrow> ([], Inl AttributeError)
      | Some s \<Rightarrow>
          (if session_closed s then ([WsConnect (url w) (ssl w)], Inl RuntimeError)
           else ([WsConnect (url w) (ssl w)], net (url w) (ssl w))))"

text \<open>The \<^verbatim>\<open>async for message in ws\<close> loop of \<^verbatim>\<open>start\<close>.\<close>

fun start_loop ::
  "'u client handler_obj \<Rightarrow> conn \<Rightarrow> inbound list \<Rightarrow> 'u client
     \<Rightarrow> step list \<times> exn option \<times> 'u client" where
  "start_loop self c [] w = ([], None, w)"
| "start_loop self c (Closing # rest) w = ([], None, ws_close c w)"
| "start_loop self c (Raises e # rest) w = ([], Some e, w)"
| "start_loop self c (Message msg # rest) w =
     (case json_loads msg of
        Inl e \<Rightarrow> ([Recv (msg_type msg)], Some e, w)
      | Inr data \<Rightarrow>
          (case handle_data self data c w of
             (tr1, Inl e, w1) \<Rightarrow> (Recv (msg_type msg) # tr1, Some e, w1)
           | (tr1, Inr ret, w1) \<Rightarrow>
               (case start_loop self c rest w1 of
                  (tr, r) \<Rightarrow> (Recv (msg_type msg) # tr1 @ tr, r))))"

text \<open>
  The \<^verbatim>\<open>try\<close> block of \<^verbatim>\<open>start\<close>. Leaving the \<^verbatim>\<open>async with\<close> block, normally or by an
  exception, runs the context manager's exit, which closes the connection.
\<close>

definition connecting :: "'u client \<Rightarrow> step" where
  "connecting w = LogInfo [Lit ''Connecting to '', Lit (url w), Lit ''...'']"

definition start_with ::
  "'u client handler_obj \<Rightarrow> conn \<Rightarrow> inbound list \<Rightarrow> 'u client
     \<Rightarrow> step list \<times> exn option \<times> 'u client" where
  "start_with self c stream w =
     (let w1 = w\<lparr>self_ws := Some c\<rparr> in
      case on_connect self c w1 of
        (Some e, w2) \<Rightarrow> ([SetWs c, OnConnect c], Some e, w2)
      | (None, w2) \<Rightarrow>
          (case start_loop self c stream w2 of
             (tr, r) \<Rightarrow> (SetWs c # OnConnect c # tr, r)))"

definition start_try ::
  "'u client handler_obj \<Rightarrow> network \<Rightarrow> inbound list \<Rightarrow> 'u client
     \<Rightarrow> step list \<times> exn option \<times> 'u client" where
  "start_try self net stream w =
     (case ws_connect net w of
        (tr0, Inl e) \<Rightarrow> (connecting w # tr0, Some e, w)
      | (tr0, Inr c) \<Rightarrow>
          (case start_with self c stream w of
             (tr, e, w1) \<Rightarrow> (connecting w # tr0 @ tr @ [ExitWith c], e, ws_close c w1)))"

text \<open>The \<^verbatim>\<open>except asyncio.exceptions.CancelledError\<close> clause.\<close>

definition interrupted :: step where
  "interrupted = LogWarn [Lit ''Keyboard Interrupt, exiting...'']"

definition start_except :: "exn option \<Rightarrow> step list \<times> exn option" where
  "start_except e = (if e = Some CancelledError then ([interrupted], None) else ([], e))"

text \<open>The \<^verbatim>\<open>finally\<close> block of \<^verbatim>\<open>start\<close>.\<close>

definition cleanup_steps :: "'u client \<Rightarrow> step list" where
  "cleanup_steps w =
     (case self_ws w of Some c \<Rightarrow> [WsClose c] | None \<Rightarrow> [])
       @ (case session w of Some s \<Rightarrow> [SessionClose] | None \<Rightarrow> [])
       @ [OnDisconnect PNone]"

definition start_finally ::
  "'u client handler_obj \<Rightarrow> 'u client \<Rightarrow> step list \<times> exn option \<times> 'u client" where
  "start_finally self w =
     (let w1 = (case self_ws w of Some c \<Rightarrow> ws_close c w | None \<Rightarrow> w);
          w2 = (case session w1 of
                  Some s \<Rightarrow> w1\<lparr>session := Some (s\<lparr>session_closed := True\<rparr>)\<rparr>
                | None \<Rightarrow> w1)
      in case on_disconnect self PNone w2 of
           (e, w3) \<Rightarrow> (cleanup_steps w, e, w3))"

definition start ::
  "'u client handler_obj \<Rightarrow> network \<Rightarrow> inbound list \<Rightarrow> 'u client
     \<Rightarrow> step list \<times> exn option \<times> 'u client" where
  "start self net stream w =
     (case start_try self net stream w of
        (tr1, e1, w1) \<Rightarrow>
          (case start_except e1 of
             (tr2, e2) \<Rightarrow>
               (case start_finally self w1 of
                  (tr3, e3, w3) \<Rightarrow>
                    (tr1 @ tr2 @ tr3, (case e3 of Some e \<Rightarrow> Some e | None \<Rightarrow> e2), w3))))"

section \<open>Notions used in the statements\<close>



text \<open>The steps taken inside a receive loop.\<close>

fun loop_step :: "step \<Rightarrow> bool" where
  "loop_step (Recv t) = True"
| "loop_step (LogInfo m) = True"
| "loop_step (LogError m) = True"
| "loop_step (Call n) = True"
| "loop_step _ = False"


text \<open>The steps of the client's \<^verbatim>\<open>finally\<close> block.\<close>

fun cleanup_step :: "step \<Rightarrow> bool" where
  "cleanup_step (WsClose c) = True"
| "cleanup_step SessionClose = True"
| "cleanup_step (OnDisconnect d) = True"
| "cleanup_step _ = False"

text \<open>
  User code that leaves \<^verbatim>\<open>self.websockets\<close> alone: the hooks and every registered
  function return with the list they were called with.
\<close>

definition keeps_websockets :: "('u server \<Rightarrow> 'r \<times> 'u server) \<Rightarrow> bool" where
  "keeps_websockets f = (\<forall>w. websockets (snd (f w)) = websockets w)"

definition hands_off :: "'u server handler_obj \<Rightarrow> bool" where
  "hands_off self =
     ((\<forall>c. keeps_websockets (on_connect self c))
      \<and> (\<forall>d. keeps_websockets (on_disconnect self d))
      \<and> (\<forall>f \<in> ran (handlers self). \<forall>d c. keeps_websockets (body f d c)))"

section \<open>Sample objects\<close>

text \<open>A fresh open connection, and a few messages.\<close>

definition sock0 :: websocket where
  "sock0 = \<lparr>closed = False, exception = None, send_raises = None, outbox = []\<rparr>"

definition ping :: pyval where
  "ping = PDict [(''type'', PStr ''ping'')]"

definition login_msg :: pyval where
  "login_msg = PDict [(''type'', PStr ''login''), (''user'', PStr ''ann'')]"

definition boom_msg :: pyval where
  "boom_msg = PDict [(''type'', PStr ''boom'')]"

definition bad_msg :: pyval where
  "bad_msg = PDict [(''type'', PList [])]"

definition hello :: pyval where
  "hello = PDict [(''type'', PStr ''message''), (''message'', PStr ''hello!'')]"

definition text_frame :: "pyval \<Rightarrow> inbound" where
  "text_frame v = Message \<lparr>msg_type = TEXT, json_loads = Inr v\<rparr>"

text \<open>
  Servers: one with no connection, one with the connections 0 and 1, and one where
  writing to connection 0 fails.
\<close>

definition srv0 :: "unit server" where
  "srv0 = \<lparr>sockets = (\<lambda>c. sock0), user = (), websockets = []\<rparr>"

definition srv_two :: "unit server" where
  "srv_two = srv0\<lparr>websockets := [0, 1]\<rparr>"

definition srv_broken :: "unit server" where
  "srv_broken =
     srv_two\<lparr>sockets := (sockets srv_two)(0 := sock0\<lparr>send_raises := Some TransportError\<rparr>)\<rparr>"

text \<open>
  A server class with two registered functions: \<^verbatim>\<open>login\<close> returns its message,
  \<^verbatim>\<open>boom\<close> raises. A second one whose \<^verbatim>\<open>on_connect\<close> raises.
\<close>

definition login :: "unit server func" where
  "login = Func ''login'' (\<lambda>data ws w. (Inr data, w))"

definition boom :: "unit server func" where
  "boom = Func ''boom'' (\<lambda>data ws w. (Inl (Exception ''boom''), w))"

definition server_obj :: "unit server handler_obj" where
  "server_obj =
     \<lparr>command_key = ''type'',
      handlers = fst (data_handler (fst (data_handler Map.empty (Fun login))) (Fun boom)),
      class_name = ''Server'',
      on_connect = (\<lambda>ws w. (None, w)),
      on_disconnect = (\<lambda>data w. (None, w))\<rparr>"

definition refusing :: "unit server handler_obj" where
  "refusing = server_obj\<lparr>on_connect := (\<lambda>ws w. (Some (Exception ''denied''), w))\<rparr>"

text \<open>
  A client class as in the example client: \<^verbatim>\<open>on_connect\<close> sends a greeting, and one
  function is registered under its own name. The network either connects or is
  interrupted.
\<close>

definition client_obj :: "unit client handler_obj" where
  "client_obj =
     \<lparr>command_key = ''type'',
      handlers =
        fst (data_handler Map.empty (Fun (Func ''message'' (\<lambda>data ws w. (Inr PNone, w))))),
      class_name = ''DataHandler'',
      on_connect = (\<lambda>ws w. send_json ws hello w),
      on_disconnect = (\<lambda>data w. (None, w))\<rparr>"

definition cl0 :: "unit client" where
  "cl0 = client_init ''http://localhost:8080/ws'' True (\<lambda>c. sock0) ()"

definition net_ok :: network where
  "net_ok u b = Inr 0"

definition net_cancelled :: network where
  "net_cancelled u b = Inl CancelledError"

lemmas ex_defs =
  sock0_def ping_def login_msg_def boom_msg_def bad_msg_def hello_def text_frame_def
  srv0_def srv_two_def srv_broken_def login_def boom_def server_obj_def refusing_def
  client_obj_def cl0_def net_ok_def net_cancelled_def client_init_def

section \<open>The registry and the dispatcher\<close>

text \<open>
  Claim C8. A registration with an explicit name \<open>n\<close> stores the function under \<open>n\<close>,
  whatever the function's own name is; a registration without a name stores it under the
  function's \<^verbatim>\<open>__name__\<close>. In both cases this is the only key that changes.
\<close>

theorem registry_key:
  "data_handler handler (Str n) = (handler, Decorator n)
   \<and> fst (data_handler_2nd handler n f) n = Some f
   \<and> dom (fst (data_handler_2nd handler n f)) = insert n (dom handler)
   \<and> fst (data_handler_2nd handler n f) |` (- {n}) = handler |` (- {n})
   \<and> fst (data_handler handler (Fun f)) (name f) = Some f
   \<and> dom (fst (data_handler handler (Fun f))) = insert (name f) (dom handler)
   \<and> fst (data_handler handler (Fun f)) |` (- {name f}) = handler |` (- {name f})"
  by (simp add: data_handler_2nd_def)


text \<open>
  A message whose command value can be hashed and is no key of the registry (also a
  missing one, which reads as \<^verbatim>\<open>None\<close>): one error is logged, naming the value and the
  class, nothing is called, nothing is raised, and the result is \<^verbatim>\<open>None\<close>.
\<close>

lemma handle_data_unknown:
  assumes "py_get data (command_key self) = Inr cmd"
    and "registry_find cmd (handlers self) = Inr None"
  shows "handle_data self data ws w = ([unknown_command cmd (class_name self)], Inr PNone, w)"
  using assms by (simp add: handle_data_def)

lemma registry_find_hashable:
  "registry_find PNone reg = Inr None"
  "registry_find (PBool b) reg = Inr None"
  "registry_find (PInt i) reg = Inr None"
  "s \<notin> dom reg \<Longrightarrow> registry_find (PStr s) reg = Inr None"
  by (simp_all add: domIff)

text \<open>
  Claim C6, at the message \<^verbatim>\<open>{"type": []}\<close>: the command value is no key of the registry,
  and the dispatch raises \<^verbatim>\<open>TypeError\<close>, with nothing logged, since the membership test
  hashes the list first.
\<close>

theorem dispatch_unhashable_raises:
  "handle_data (self\<lparr>command_key := ''type''\<rparr>) (PDict [(''type'', PList [])]) ws w
     = ([], Inl TypeError, w)"
  by (simp add: handle_data_def)

lemma handle_data_steps: "s \<in> set (fst (handle_data self d c w)) \<Longrightarrow> loop_step s"
  by (auto simp: handle_data_def unknown_command_def split: sum.splits option.splits prod.splits)

section \<open>Broadcast\<close>








section \<open>The server's \<^verbatim>\<open>handle\<close>\<close>

lemma stamp_simps [simp]:
  "stamp w [] = []" "stamp w (s # tr) = (s, websockets w) # stamp w tr"
  "stamp w (tr @ tr') = stamp w tr @ stamp w tr'"
  by (simp_all add: stamp_def)

lemma set_stamp: "(s, act) \<in> set (stamp w tr) \<longleftrightarrow> s \<in> set tr \<and> act = websockets w"
  by (auto simp: stamp_def)

lemma ws_close_simps [simp]:
  "websockets (ws_close c w) = websockets w"
  "closed (sockets (ws_close c w) c)"
  by (simp_all add: ws_close_def)

text \<open>The receive loop takes loop steps only.\<close>

lemma handle_loop_steps:
  "(s, act) \<in> set (fst (handle_loop self ws stream d w)) \<Longrightarrow> loop_step s"
proof (induction self ws stream d w rule: handle_loop.induct)
  case (4 self ws msg rest ws_data w)
  show ?case
  proof (cases "msg_type msg = ERROR")
    case True
    then show ?thesis using 4(1) 4(4)
      by (cases "handle_loop self ws rest ws_data w") auto
  next
    case nE: False
    show ?thesis
    proof (cases "msg_type msg = TEXT")
      case False
      then show ?thesis using nE 4(3) 4(4)
        by (cases "handle_loop self ws rest ws_data w") auto
    next
      case True
      show ?thesis
      proof (cases "json_loads msg")
        case (Inl e)
        then show ?thesis using nE True 4(4) by auto
      next
        case (Inr data)
        obtain tr1 r w1 where hd: "handle_data self data ws w = (tr1, r, w1)"
          by (cases "handle_data self data ws w")
        have st: "\<And>x. x \<in> set tr1 \<Longrightarrow> loop_step x"
          using handle_data_steps [of _ self data ws w] hd by simp
        show ?thesis
        proof (cases r)
          case (Inl e)
          then show ?thesis using nE True Inr hd 4(4) st by (auto simp: set_stamp)
        next
          case (Inr ret)
          then show ?thesis
            using nE True \<open>json_loads msg = Inr data\<close> hd 4(4) st
              4(2) [OF nE True \<open>json_loads msg = Inr data\<close> hd [symmetric] refl Inr]
            by (cases "handle_loop self ws rest (if truthy ret then ret else ws_data) w1")
               (auto simp: set_stamp)
        qed
      qed
    qed
  qed
qed simp_all


text \<open>Registered functions that keep the active set make the dispatcher keep it.\<close>

lemma handle_data_keeps:
  assumes "\<forall>f \<in> ran (handlers self). \<forall>d c. keeps_websockets (body f d c)"
  shows "websockets (snd (snd (handle_data self d c w))) = websockets w"
proof (cases "py_get d (command_key self)")
  case (Inl e)
  then show ?thesis by (simp add: handle_data_def)
next
  case (Inr cmd)
  show ?thesis
  proof (cases "registry_find cmd (handlers self)")
    case (Inl e)
    then show ?thesis using Inr by (simp add: handle_data_def)
  next
    case fnd: (Inr fo)
    show ?thesis
    proof (cases fo)
      case None
      then show ?thesis using Inr fnd by (simp add: handle_data_def)
    next
      case (Some f)
      have "f \<in> ran (handlers self)"
        using fnd Some by (cases cmd) (auto simp: ran_def)
      then have "websockets (snd (body f d c w)) = websockets w"
        using assms by (simp add: keeps_websockets_def)
      then show ?thesis using Inr fnd Some
        by (cases "body f d c w") (simp add: handle_data_def)
    qed
  qed
qed

lemma handle_loop_keeps:
  assumes H: "\<forall>f \<in> ran (handlers self). \<forall>d c. keeps_websockets (body f d c)"
  shows "websockets (snd (snd (snd (handle_loop self ws stream d w)))) = websockets w
         \<and> (\<forall>(s, act) \<in> set (fst (handle_loop self ws stream d w)). act = websockets w)"
  using H
proof (induction self ws stream d w rule: handle_loop.induct)
  case (4 self ws msg rest ws_data w)
  show ?case
  proof (cases "msg_type msg = ERROR")
    case True
    then show ?thesis using 4(1) 4(4)
      by (cases "handle_loop self ws rest ws_data w") auto
  next
    case nE: False
    show ?thesis
    proof (cases "msg_type msg = TEXT")
      case False
      then show ?thesis using nE 4(3) 4(4)
        by (cases "handle_loop self ws rest ws_data w") auto
    next
      case True
      show ?thesis
      proof (cases "json_loads msg")
        case (Inl e)
        then show ?thesis using nE True by auto
      next
        case (Inr data)
        obtain tr1 r w1 where hd: "handle_data self data ws w = (tr1, r, w1)"
          by (cases "handle_data self data ws w")
        have k: "websockets w1 = websockets w"
          using handle_data_keeps [OF 4(4), of data ws w] hd by simp
        show ?thesis
        proof (cases r)
          case (Inl e)
          then show ?thesis using nE True Inr hd k by (auto simp: set_stamp)
        next
          case (Inr ret)
          then show ?thesis
            using nE True \<open>json_loads msg = Inr data\<close> hd k
              4(2) [OF nE True \<open>json_loads msg = Inr data\<close> hd [symmetric] refl Inr 4(4)]
            by (cases "handle_loop self ws rest (if truthy ret then ret else ws_data) w1")
               (auto simp: set_stamp)
        qed
      qed
    qed
  qed
qed simp_all

text \<open>
  When the user code leaves the active set alone, the connection is still in it, at the
  place where \<^verbatim>\<open>handle\<close> has appended it, when the \<^verbatim>\<open>try\<close> block is left.
\<close>

lemma handle_try_active:
  assumes "hands_off self" and "handle_try self ws stream w = (tr1, d, e1, w1)"
  shows "websockets w1 = websockets w @ [ws]"
proof -
  have H: "\<forall>f \<in> ran (handlers self). \<forall>d c. keeps_websockets (body f d c)"
    and C: "\<And>c w. websockets (snd (on_connect self c w)) = websockets w"
    using assms(1) by (simp_all add: hands_off_def keeps_websockets_def)
  define w0 where "w0 = w\<lparr>websockets := websockets w @ [ws]\<rparr>"
  obtain e w2 where oc: "on_connect self ws w0 = (e, w2)" by (cases "on_connect self ws w0")
  have k2: "websockets w2 = websockets w @ [ws]" using C [of ws w0] oc by (simp add: w0_def)
  show ?thesis
  proof (cases e)
    case (Some x)
    then show ?thesis using oc k2 assms(2)
      by (simp add: handle_try_def Let_def w0_def [symmetric])
  next
    case None
    obtain tr d' e' w' where hl: "handle_loop self ws stream PNone w2 = (tr, d', e', w')"
      by (cases "handle_loop self ws stream PNone w2") auto
    have "websockets w' = websockets w2"
      using handle_loop_keeps [OF H, of ws stream PNone w2] hl by simp
    then show ?thesis using None oc hl k2 assms(2)
      by (simp add: handle_try_def Let_def w0_def [symmetric])
  qed
qed

text \<open>
  What \<^verbatim>\<open>handle\<close> does once the \<^verbatim>\<open>try\<close> block is left, when the connection is still in
  the list.
\<close>

lemma handle_after_try:
  assumes "handle_try self ws stream w = (tr1, ws_data, e1, w1)"
    and "ws \<in> set (websockets w1)"
  shows "fst (handle self ws stream w) =
           tr1 @ (Remove ws, websockets w1)
             # (if closed (sockets w1 ws) then [] else [(WsClose ws, remove1 ws (websockets w1))])
             @ [(OnDisconnect ws_data, remove1 ws (websockets w1))]
         \<and> (\<exists>w2. websockets w2 = remove1 ws (websockets w1) \<and> closed (sockets w2 ws)
               \<and> snd (snd (handle self ws stream w)) = snd (on_disconnect self ws_data w2)
               \<and> fst (snd (handle self ws stream w)) =
                   (case fst (on_disconnect self ws_data w2) of Some e \<Rightarrow> Some e | None \<Rightarrow> e1))"
proof -
  define w1' where "w1' = w1\<lparr>websockets := remove1 ws (websockets w1)\<rparr>"
  define w2 where "w2 = (if \<not> closed (sockets w1' ws) then ws_close ws w1' else w1')"
  obtain e w3 where od: "on_disconnect self ws_data w2 = (e, w3)"
    by (cases "on_disconnect self ws_data w2")
  have fin: "handle_finally self ws ws_data w1 =
     ((Remove ws, websockets w1)
        # stamp w1' (if \<not> closed (sockets w1' ws) then [WsClose ws] else [])
        @ stamp w2 [OnDisconnect ws_data], e, w3)"
    using assms(2) od
    by (simp add: handle_finally_def Let_def w1'_def [symmetric] w2_def [symmetric])
  have w2s: "websockets w2 = remove1 ws (websockets w1)" "closed (sockets w2 ws)"
    by (simp_all add: w2_def w1'_def)
  have c1: "closed (sockets w1' ws) = closed (sockets w1 ws)" by (simp add: w1'_def)
  have a: "fst (handle self ws stream w) =
           tr1 @ (Remove ws, websockets w1)
             # (if closed (sockets w1 ws) then [] else [(WsClose ws, remove1 ws (websockets w1))])
             @ [(OnDisconnect ws_data, remove1 ws (websockets w1))]"
    using assms(1) fin w2s c1 by (simp add: handle_def w1'_def)
  have c: "snd (snd (handle self ws stream w)) = snd (on_disconnect self ws_data w2)
       \<and> fst (snd (handle self ws stream w)) =
                   (case fst (on_disconnect self ws_data w2) of Some e \<Rightarrow> Some e | None \<Rightarrow> e1)"
    using assms(1) fin od by (simp add: handle_def)
  show ?thesis using a c w2s by blast
qed





text \<open>
  Claim C4, as stated, at a server whose \<^verbatim>\<open>on_connect\<close> raises: when \<^verbatim>\<open>on_connect\<close> is
  called the connection is in the active set, and that is no step of a receive loop; the
  run has no such step at all.
\<close>

theorem active_set_counterexample:
  "fst (handle refusing 0 [] srv0) =
     [(Append 0, []), (OnConnect 0, [0]), (Remove 0, [0]), (WsClose 0, []),
      (OnDisconnect PNone, [])]
   \<and> \<not> loop_step (OnConnect 0)"
  by (simp add: ex_defs handle_def handle_try_def handle_finally_def stamp_def ws_close_def)

text \<open>
  Claim C4, amended. Let the user code leave the active set alone, and let the connection
  not be in the set when \<^verbatim>\<open>handle\<close> is called. Then the connection is appended once,
  before \<^verbatim>\<open>on_connect\<close> and the receive loop, and removed once, when the loop has ended
  (or has not been entered), for whatever reason. It is in the set when \<^verbatim>\<open>on_connect\<close>
  is called, at every step of the receive loop and when the removal starts; it is out of
  the set before the append, when it is closed, when \<^verbatim>\<open>on_disconnect\<close> is called and
  when \<^verbatim>\<open>handle\<close> has returned.
\<close>

theorem active_set_membership:
  assumes "hands_off self" and "ws \<notin> set (websockets w)"
  shows "\<exists>loop_tr cl d. fst (handle self ws stream w) =
           (Append ws, websockets w) # (OnConnect ws, websockets w @ [ws]) # loop_tr
             @ (Remove ws, websockets w @ [ws]) # cl @ [(OnDisconnect d, websockets w)]
         \<and> (\<forall>(s, act) \<in> set loop_tr. loop_step s \<and> act = websockets w @ [ws])
         \<and> set cl \<subseteq> {(WsClose ws, websockets w)}
         \<and> websockets (snd (snd (handle self ws stream w))) = websockets w"
proof -
  have H: "\<forall>f \<in> ran (handlers self). \<forall>d c. keeps_websockets (body f d c)"
    and C: "\<And>c w. websockets (snd (on_connect self c w)) = websockets w"
    and D: "\<And>d w. websockets (snd (on_disconnect self d w)) = websockets w"
    using assms(1) by (simp_all add: hands_off_def keeps_websockets_def)
  define w0 where "w0 = w\<lparr>websockets := websockets w @ [ws]\<rparr>"
  obtain e w2 where oc: "on_connect self ws w0 = (e, w2)" by (cases "on_connect self ws w0")
  have k0: "websockets w0 = websockets w @ [ws]" by (simp add: w0_def)
  have k2: "websockets w2 = websockets w @ [ws]" using C [of ws w0] oc by (simp add: w0_def)
  have "\<exists>loop_tr d e1 w1. handle_try self ws stream w =
          ((Append ws, websockets w) # (OnConnect ws, websockets w @ [ws]) # loop_tr, d, e1, w1)
        \<and> (\<forall>(s, act) \<in> set loop_tr. loop_step s \<and> act = websockets w @ [ws])
        \<and> websockets w1 = websockets w @ [ws]"
  proof (cases e)
    case (Some x)
    then show ?thesis using oc k2 k0 by (simp add: handle_try_def Let_def w0_def [symmetric])
  next
    case None
    obtain tr d e1 w1 where hl: "handle_loop self ws stream PNone w2 = (tr, d, e1, w1)"
      by (cases "handle_loop self ws stream PNone w2") auto
    have "websockets w1 = websockets w @ [ws]"
      and "\<forall>(s, act) \<in> set tr. act = websockets w @ [ws]"
      using handle_loop_keeps [OF H, of ws stream PNone w2] hl k2 by simp_all
    moreover have "\<forall>(s, act) \<in> set tr. loop_step s"
      using handle_loop_steps [of _ _ self ws stream PNone w2] hl by auto
    ultimately show ?thesis using None oc hl k0
      by (auto simp: handle_try_def Let_def w0_def [symmetric])
  qed
  then obtain loop_tr d e1 w1 where
    t: "handle_try self ws stream w =
          ((Append ws, websockets w) # (OnConnect ws, websockets w @ [ws]) # loop_tr, d, e1, w1)"
    and l: "\<forall>(s, act) \<in> set loop_tr. loop_step s \<and> act = websockets w @ [ws]"
    and k1: "websockets w1 = websockets w @ [ws]"
    by blast
  have m: "ws \<in> set (websockets w1)" by (simp add: k1)
  have r: "remove1 ws (websockets w1) = websockets w"
    using assms(2) by (simp add: k1 remove1_append)
  obtain w3 where f: "fst (handle self ws stream w) =
           ((Append ws, websockets w) # (OnConnect ws, websockets w @ [ws]) # loop_tr)
             @ (Remove ws, websockets w1)
             # (if closed (sockets w1 ws) then [] else [(WsClose ws, remove1 ws (websockets w1))])
             @ [(OnDisconnect d, remove1 ws (websockets w1))]"
    and w3: "websockets w3 = remove1 ws (websockets w1)"
      "snd (snd (handle self ws stream w)) = snd (on_disconnect self d w3)"
    using handle_after_try [OF t m] by blast
  have fin: "websockets (snd (snd (handle self ws stream w))) = websockets w"
    using w3 D [of d w3] r by simp
  show ?thesis
    apply (rule exI [of _ loop_tr])
    apply (rule exI [of _ "if closed (sockets w1 ws) then [] else [(WsClose ws, websockets w)]"])
    apply (rule exI [of _ d])
    using f l fin r k1 by simp
qed

text \<open>
  Claim C4, amended, at the sample server, whose hooks and functions do not touch the
  active set, with a new connection that sends one message.
\<close>

theorem active_set_membership_witness:
  "0 \<notin> set (websockets srv0)
   \<and> take 2 (fst (handle server_obj 0 [text_frame login_msg] srv0)) =
       [(Append 0, []), (OnConnect 0, [0])]
   \<and> websockets (snd (snd (handle server_obj 0 [text_frame login_msg] srv0))) = []"
proof -
  have h1: "hands_off server_obj"
    by (simp add: hands_off_def keeps_websockets_def server_obj_def login_def boom_def)
  have h2: "0 \<notin> set (websockets srv0)" by (simp add: srv0_def)
  have e: "websockets srv0 = []" by (simp add: srv0_def)
  show ?thesis
    using h2 e active_set_membership [OF h1 h2, of "[text_frame login_msg]"] by auto
qed

section \<open>The client's \<^verbatim>\<open>start\<close>\<close>

lemma loop_step_not_cleanup: "loop_step s \<Longrightarrow> \<not> cleanup_step s"
  by (cases s) simp_all

lemma start_loop_steps: "s \<in> set (fst (start_loop self c stream w)) \<Longrightarrow> loop_step s"
proof (induction self c stream w rule: start_loop.induct)
  case (4 self c msg rest w)
  show ?case
  proof (cases "json_loads msg")
    case (Inl e)
    then show ?thesis using 4(2) by auto
  next
    case (Inr data)
    obtain tr1 r w1 where hd: "handle_data self data c w = (tr1, r, w1)"
      by (cases "handle_data self data c w")
    have st: "\<And>x. x \<in> set tr1 \<Longrightarrow> loop_step x"
      using handle_data_steps [of _ self data c w] hd by simp
    show ?thesis
    proof (cases r)
      case (Inl e)
      then show ?thesis using Inr hd 4(2) st by auto
    next
      case (Inr ret)
      then show ?thesis
        using \<open>json_loads msg = Inr data\<close> hd 4(2) st
          4(1) [OF \<open>json_loads msg = Inr data\<close> hd [symmetric] refl Inr]
        by (cases "start_loop self c rest w1") auto
    qed
  qed
qed simp_all

lemma start_with_steps: "s \<in> set (fst (start_with self c stream w)) \<Longrightarrow> \<not> cleanup_step s"
proof -
  assume a: "s \<in> set (fst (start_with self c stream w))"
  obtain e w2 where oc: "on_connect self c (w\<lparr>self_ws := Some c\<rparr>) = (e, w2)"
    by (cases "on_connect self c (w\<lparr>self_ws := Some c\<rparr>)")
  show ?thesis
  proof (cases e)
    case (Some x)
    then show ?thesis using a oc by (auto simp: start_with_def Let_def)
  next
    case None
    then show ?thesis
      using a oc start_loop_steps [of s self c stream w2] loop_step_not_cleanup [of s]
      by (cases "start_loop self c stream w2") (auto simp: start_with_def Let_def)
  qed
qed

lemma start_try_steps: "s \<in> set (fst (start_try self net stream w)) \<Longrightarrow> \<not> cleanup_step s"
proof -
  assume a: "s \<in> set (fst (start_try self net stream w))"
  obtain tr0 r where wc: "ws_connect net w = (tr0, r)" by (cases "ws_connect net w")
  have t0: "\<And>x. x \<in> set tr0 \<Longrightarrow> \<not> cleanup_step x"
    using wc by (auto simp: ws_connect_def split: option.splits if_splits)
  show ?thesis
  proof (cases r)
    case (Inl e)
    then show ?thesis using a wc t0 by (auto simp: start_try_def connecting_def)
  next
    case (Inr c)
    then show ?thesis using a wc t0 start_with_steps [of s self c stream w]
      by (cases "start_with self c stream w") (auto simp: start_try_def connecting_def)
  qed
qed

text \<open>What \<^verbatim>\<open>start\<close> does once the \<^verbatim>\<open>try\<close> block is left.\<close>

lemma start_after_try:
  assumes "start_try self net stream w = (tr1, e1, w1)"
  shows "fst (start self net stream w) = tr1 @ fst (start_except e1) @ cleanup_steps w1"
    and "\<exists>w2. (\<forall>c. self_ws w1 = Some c \<longrightarrow> closed (sockets w2 c))
            \<and> (\<forall>s. session w2 = Some s \<longrightarrow> session_closed s)
            \<and> snd (snd (start self net stream w)) = snd (on_disconnect self PNone w2)
            \<and> fst (snd (start self net stream w)) =
                (case fst (on_disconnect self PNone w2) of
                   Some e \<Rightarrow> Some e | None \<Rightarrow> snd (start_except e1))"
proof -
  define wa where "wa = (case self_ws w1 of Some c \<Rightarrow> ws_close c w1 | None \<Rightarrow> w1)"
  define w2 where "w2 = (case session wa of
                  Some s \<Rightarrow> wa\<lparr>session := Some (s\<lparr>session_closed := True\<rparr>)\<rparr>
                | None \<Rightarrow> wa)"
  obtain e w3 where od: "on_disconnect self PNone w2 = (e, w3)"
    by (cases "on_disconnect self PNone w2")
  have fin: "start_finally self w1 = (cleanup_steps w1, e, w3)"
    using od by (simp add: start_finally_def Let_def wa_def [symmetric] w2_def [symmetric])
  show "fst (start self net stream w) = tr1 @ fst (start_except e1) @ cleanup_steps w1"
    using assms fin by (cases "start_except e1") (simp add: start_def)
  have c: "\<forall>c. self_ws w1 = Some c \<longrightarrow> closed (sockets w2 c)"
    by (auto simp: w2_def wa_def ws_close_def split: option.splits)
  have s: "\<forall>s. session w2 = Some s \<longrightarrow> session_closed s"
    by (auto simp: w2_def split: option.splits)
  have r: "snd (snd (start self net stream w)) = snd (on_disconnect self PNone w2)
            \<and> fst (snd (start self net stream w)) =
                (case fst (on_disconnect self PNone w2) of
                   Some e \<Rightarrow> Some e | None \<Rightarrow> snd (start_except e1))"
    using assms fin od
    by (cases "start_except e1") (simp add: start_def cong: option.case_cong)
  show "\<exists>w2. (\<forall>c. self_ws w1 = Some c \<longrightarrow> closed (sockets w2 c))
            \<and> (\<forall>s. session w2 = Some s \<longrightarrow> session_closed s)
            \<and> snd (snd (start self net stream w)) = snd (on_disconnect self PNone w2)
            \<and> fst (snd (start self net stream w)) =
                (case fst (on_disconnect self PNone w2) of
                   Some e \<Rightarrow> Some e | None \<Rightarrow> snd (start_except e1))"
    using c s r by blast
qed

text \<open>
  Claim C3. Let the \<^verbatim>\<open>try\<close> block of \<^verbatim>\<open>start\<close> end in any way: normally, by a
  cancellation or by another exception \<open>e1\<close>. Then the run ends with the cleanup, once and
  in this order: the connection is closed if \<^verbatim>\<open>self.ws\<close> is set, the session is closed if
  there is one, and \<^verbatim>\<open>on_disconnect\<close> is called with \<^verbatim>\<open>None\<close>, on a state where that
  connection and the session are closed. No cleanup step occurs earlier.
\<close>

theorem start_cleanup:
  assumes "start_try self net stream w = (tr1, e1, w1)"
  shows "fst (start self net stream w) =
           tr1 @ (if e1 = Some CancelledError then [interrupted] else [])
             @ (case self_ws w1 of Some c \<Rightarrow> [WsClose c] | None \<Rightarrow> [])
             @ (case session w1 of Some s \<Rightarrow> [SessionClose] | None \<Rightarrow> [])
             @ [OnDisconnect PNone]
         \<and> (\<forall>s \<in> set (tr1 @ (if e1 = Some CancelledError then [interrupted] else [])).
               \<not> cleanup_step s)
         \<and> (\<exists>w2. (\<forall>c. self_ws w1 = Some c \<longrightarrow> closed (sockets w2 c))
               \<and> (\<forall>s. session w2 = Some s \<longrightarrow> session_closed s)
               \<and> snd (snd (start self net stream w)) = snd (on_disconnect self PNone w2))"
proof -
  have a: "fst (start self net stream w) =
           tr1 @ (if e1 = Some CancelledError then [interrupted] else [])
             @ (case self_ws w1 of Some c \<Rightarrow> [WsClose c] | None \<Rightarrow> [])
             @ (case session w1 of Some s \<Rightarrow> [SessionClose] | None \<Rightarrow> [])
             @ [OnDisconnect PNone]"
    using start_after_try(1) [OF assms] by (simp add: start_except_def cleanup_steps_def)
  have b: "\<forall>s \<in> set (tr1 @ (if e1 = Some CancelledError then [interrupted] else [])).
               \<not> cleanup_step s"
    using start_try_steps [of _ self net stream w] assms by (auto simp: interrupted_def)
  show ?thesis using a b start_after_try(2) [OF assms] by blast
qed

text \<open>
  Claim C3, at a client that connects and then receives \<^verbatim>\<open>{"type": []}\<close>: the dispatch
  raises \<^verbatim>\<open>TypeError\<close>, which no clause catches, and the cleanup runs.
\<close>

theorem start_cleanup_witness:
  "fst (start_try client_obj net_ok [text_frame bad_msg] cl0) =
     [LogInfo [Lit ''Connecting to '', Lit ''http://localhost:8080/ws'', Lit ''...''],
      WsConnect ''http://localhost:8080/ws'' True, SetWs 0, OnConnect 0, Recv TEXT, ExitWith 0]
   \<and> fst (snd (start_try client_obj net_ok [text_frame bad_msg] cl0)) = Some TypeError
   \<and> fst (start client_obj net_ok [text_frame bad_msg] cl0) =
     [LogInfo [Lit ''Connecting to '', Lit ''http://localhost:8080/ws'', Lit ''...''],
      WsConnect ''http://localhost:8080/ws'' True, SetWs 0, OnConnect 0, Recv TEXT, ExitWith 0,
      WsClose 0, SessionClose, OnDisconnect PNone]"
proof -
  define T where "T = start_try client_obj net_ok [text_frame bad_msg] cl0"
  have h: "start_try client_obj net_ok [text_frame bad_msg] cl0 = (fst T, fst (snd T), snd (snd T))"
    by (simp add: T_def)
  have v: "fst T =
     [LogInfo [Lit ''Connecting to '', Lit ''http://localhost:8080/ws'', Lit ''...''],
      WsConnect ''http://localhost:8080/ws'' True, SetWs 0, OnConnect 0, Recv TEXT, ExitWith 0]"
    "fst (snd T) = Some TypeError"
    "self_ws (snd (snd T)) = Some 0"
    "session (snd (snd T)) = Some \<lparr>session_closed = False\<rparr>"
    by (simp_all add: T_def ex_defs start_try_def start_with_def ws_connect_def connecting_def
        send_json_def handle_data_def ws_close_def)
  show ?thesis using v start_cleanup [OF h] by (simp add: T_def)
qed


text \<open>The two phases: a cancellation while connecting, and one inside the receive loop.\<close>

lemma cancel_during_connect:
  assumes "session w = Some s" and "\<not> session_closed s"
    and "net (url w) (ssl w) = Inl CancelledError"
  shows "start_try self net stream w =
           ([connecting w, WsConnect (url w) (ssl w)], Some CancelledError, w)"
  using assms by (simp add: start_try_def ws_connect_def)

lemma cancel_during_receive:
  assumes "session w = Some s" and "\<not> session_closed s"
    and "net (url w) (ssl w) = Inr c"
    and "on_connect self c (w\<lparr>self_ws := Some c\<rparr>) = (None, w2)"
    and "start_loop self c stream w2 = (tr, Some CancelledError, w3)"
  shows "start_try self net stream w =
           (connecting w # WsConnect (url w) (ssl w) # SetWs c # OnConnect c # tr @ [ExitWith c],
            Some CancelledError, ws_close c w3)"
  using assms by (simp add: start_try_def ws_connect_def start_with_def)


text \<open>
  Claim C5, as stated, at the sample client: the first call of \<^verbatim>\<open>start\<close> opens nothing
  before it connects, it uses the session the constructor has created, and closes it at
  the end; the second call on the same object finds the session closed, does not open
  one, and fails to connect.
\<close>

theorem start_opens_session_counterexample:
  "fst (start client_obj net_ok [] cl0) =
     [LogInfo [Lit ''Connecting to '', Lit ''http://localhost:8080/ws'', Lit ''...''],
      WsConnect ''http://localhost:8080/ws'' True, SetWs 0, OnConnect 0, ExitWith 0,
      WsClose 0, SessionClose, OnDisconnect PNone]
   \<and> session (snd (snd (start client_obj net_ok [] cl0))) = Some \<lparr>session_closed = True\<rparr>
   \<and> fst (start client_obj net_ok [] (snd (snd (start client_obj net_ok [] cl0)))) =
     [LogInfo [Lit ''Connecting to '', Lit ''http://localhost:8080/ws'', Lit ''...''],
      WsConnect ''http://localhost:8080/ws'' True, WsClose 0, SessionClose, OnDisconnect PNone]
   \<and> fst (snd (start client_obj net_ok [] (snd (snd (start client_obj net_ok [] cl0))))) =
     Some RuntimeError"
  by (simp add: ex_defs start_def start_try_def start_with_def ws_connect_def connecting_def
        send_json_def start_except_def start_finally_def cleanup_steps_def ws_close_def)

text \<open>
  Claim C5, amended. The constructor creates the session, open, and stores the URL and
  the TLS toggle. A call of \<^verbatim>\<open>start\<close> on a client whose session is open connects to the
  stored URL with the stored toggle; when the connection is established it is stored in
  \<^verbatim>\<open>self.ws\<close>, \<^verbatim>\<open>on_connect\<close> is called with it, and when \<^verbatim>\<open>on_connect\<close> returns the
  receive loop runs.
\<close>

theorem start_connects:
  "session (client_init u b socks usr) = Some \<lparr>session_closed = False\<rparr>
   \<and> url (client_init u b socks usr) = u \<and> ssl (client_init u b socks usr) = b
   \<and> (session w = Some s \<and> \<not> session_closed s \<and> net (url w) (ssl w) = Inr c \<longrightarrow>
        (\<exists>rest. fst (start self net stream w) =
           connecting w # WsConnect (url w) (ssl w) # SetWs c # OnConnect c # rest)
        \<and> (\<forall>w2. on_connect self c (w\<lparr>self_ws := Some c\<rparr>) = (None, w2) \<longrightarrow>
             (\<exists>rest. fst (start self net stream w) =
                connecting w # WsConnect (url w) (ssl w) # SetWs c # OnConnect c
                  # fst (start_loop self c stream w2) @ ExitWith c # rest)))"
proof -
  have i: "session (client_init u b socks usr) = Some \<lparr>session_closed = False\<rparr>
   \<and> url (client_init u b socks usr) = u \<and> ssl (client_init u b socks usr) = b"
    by (simp add: client_init_def)
  have m: "(\<exists>rest. fst (start self net stream w) =
           connecting w # WsConnect (url w) (ssl w) # SetWs c # OnConnect c # rest)
        \<and> (\<forall>w2. on_connect self c (w\<lparr>self_ws := Some c\<rparr>) = (None, w2) \<longrightarrow>
             (\<exists>rest. fst (start self net stream w) =
                connecting w # WsConnect (url w) (ssl w) # SetWs c # OnConnect c
                  # fst (start_loop self c stream w2) @ ExitWith c # rest))"
    if h: "session w = Some s" "\<not> session_closed s" "net (url w) (ssl w) = Inr c"
  proof -
    obtain e w2 where oc: "on_connect self c (w\<lparr>self_ws := Some c\<rparr>) = (e, w2)"
      by (cases "on_connect self c (w\<lparr>self_ws := Some c\<rparr>)")
    obtain tr1 e1 w1 where t: "start_try self net stream w = (tr1, e1, w1)"
      by (cases "start_try self net stream w")
    have f: "fst (start self net stream w) = tr1 @ fst (start_except e1) @ cleanup_steps w1"
      using start_after_try(1) [OF t] .
    show ?thesis
    proof (cases e)
      case (Some x)
      then have "tr1 = connecting w # WsConnect (url w) (ssl w) # SetWs c # OnConnect c
                  # [ExitWith c]"
        using t h oc by (auto simp: start_try_def ws_connect_def start_with_def)
      then show ?thesis using f oc Some by simp
    next
      case None
      then have "tr1 = connecting w # WsConnect (url w) (ssl w) # SetWs c # OnConnect c
                  # fst (start_loop self c stream w2) @ [ExitWith c]"
        using t h oc
        by (cases "start_loop self c stream w2")
           (auto simp: start_try_def ws_connect_def start_with_def)
      then show ?thesis using f oc None by simp
    qed
  qed
  show ?thesis using i m by blast
qed

text \<open>
  Claim C5, amended, at the sample client as the constructor leaves it, with one message
  waiting: the connection is made, stored, greeted by \<^verbatim>\<open>on_connect\<close>, and the message is
  received and dispatched.
\<close>

theorem start_connects_witness:
  "session cl0 = Some \<lparr>session_closed = False\<rparr>
   \<and> net_ok (url cl0) (ssl cl0) = Inr 0
   \<and> fst (on_connect client_obj 0 (cl0\<lparr>self_ws := Some 0\<rparr>)) = None
   \<and> take 8 (fst (start client_obj net_ok [text_frame hello] cl0)) =
       [connecting cl0, WsConnect ''http://localhost:8080/ws'' True, SetWs 0, OnConnect 0,
        Recv TEXT, LogInfo [Lit ''handle '', Val (PStr ''message''), Lit ''...''],
        Call ''message'', ExitWith 0]"
proof -
  define w2 where "w2 = snd (send_json 0 hello (cl0\<lparr>self_ws := Some 0\<rparr>))"
  have h: "session cl0 = Some \<lparr>session_closed = False\<rparr>"
    "\<not> session_closed \<lparr>session_closed = False\<rparr>"
    "net_ok (url cl0) (ssl cl0) = Inr 0"
    by (simp_all add: cl0_def client_init_def net_ok_def)
  have oc: "on_connect client_obj 0 (cl0\<lparr>self_ws := Some 0\<rparr>) = (None, w2)"
    by (simp add: w2_def client_obj_def send_json_def cl0_def client_init_def sock0_def)
  have l: "fst (start_loop client_obj 0 [text_frame hello] w2) =
     [Recv TEXT, LogInfo [Lit ''handle '', Val (PStr ''message''), Lit ''...''], Call ''message'']"
    by (simp add: text_frame_def hello_def handle_data_def client_obj_def)
  have u: "url cl0 = ''http://localhost:8080/ws''" "ssl cl0 = True"
    by (simp_all add: cl0_def client_init_def)
  show ?thesis
    using h oc l u
      start_connects [where w = cl0 and s = "\<lparr>session_closed = False\<rparr>" and net = net_ok
        and c = 0 and self = client_obj and stream = "[text_frame hello]"
        and u = "url cl0" and b = "ssl cl0" and socks = "sockets cl0" and usr = "()"]
    by auto
qed

end
